theory Spec2Isabelle
  imports Complex_Main
begin

section \<open>Data model of \<open>src/App.tsx\<close>\<close>

text \<open>
  Strings are lists of 8-bit code units, so a model string stands for the JavaScript
  string with the same code units (all below 256). Timestamps are stored by the program
  as ISO strings written by \<open>toISOString\<close> and read back by \<open>new Date(iso)\<close>; the model keeps
  the time value these strings denote, in milliseconds since the epoch.
\<close>

record ClickRecord =
  ts :: int
  source :: string

record ShortLink =
  id' :: string
  originalUrl :: string
  createdAt :: int
  expiresAt :: int
  clicks :: "ClickRecord list"
  createdBy :: string

text \<open>
  A JavaScript number. A finite number is given by its exact value, a rational; the sum
  of two of them is rounded to the nearest double, as IEEE 754 has it.
\<close>

datatype number = NaN | Infinity | NegInfinity | Num rat

text \<open>The state \<open>validityMinutes\<close> of the form has type \<open>number | ""\<close>.\<close>

datatype validity = Blank | Picked number

text \<open>
  The platform services the handlers call: the \<open>URL\<close> constructor (\<open>None\<close> when it throws)
  and the local time zone adjustment \<open>LocalTZA(t, isUTC)\<close> of ECMAScript's Date.
\<close>

record url =
  protocol :: string

record host =
  URL :: "string \<Rightarrow> url option"
  LocalTZA :: "int \<Rightarrow> bool \<Rightarrow> int"

section \<open>Number and Date primitives\<close>

fun isNaN :: "number \<Rightarrow> bool" where
  "isNaN NaN = True"
| "isNaN _ = False"

text \<open>\<open>x <= 0\<close> on numbers: false for NaN.\<close>

fun le0 :: "number \<Rightarrow> bool" where
  "le0 NaN = False"
| "le0 Infinity = False"
| "le0 NegInfinity = True"
| "le0 (Num q) = (q \<le> 0)"

text \<open>
  The Number value of an exact result: IEEE 754 binary64 rounding to the nearest double,
  ties to even. \<open>bitLength n\<close> is the number of binary digits of \<open>n\<close>, \<open>floorLog2 x\<close> is the
  exponent \<open>e\<close> with \<open>2^e \<le> x < 2^(e+1)\<close> for a positive \<open>x\<close>. A double with the exponent \<open>e\<close>
  (at least -1022, where the subnormal numbers begin) is a multiple of \<open>2^(e-52)\<close>; a
  result whose exponent is beyond 1023 overflows to an infinity.
\<close>

function bitLength :: "int \<Rightarrow> int" where
  "bitLength n = (if n \<le> 0 then 0 else 1 + bitLength (n div 2))"
  by pat_completeness auto
termination
  by (relation "measure nat") auto

definition floorLog2 :: "rat \<Rightarrow> int" where
  "floorLog2 x =
     (let (p, q) = quotient_of x;
          d = bitLength p - bitLength q
      in if 2 powi d \<le> x then d else d - 1)"

definition roundTiesToEven :: "rat \<Rightarrow> int" where
  "roundTiesToEven n =
     (let f = \<lfloor>n\<rfloor>; d = n - of_int f
      in if d < 1 / 2 then f else if 1 / 2 < d then f + 1 else if even f then f else f + 1)"

definition roundToDouble :: "rat \<Rightarrow> number" where
  "roundToDouble x =
     (if x = 0 then Num 0
      else
        let e = max (floorLog2 \<bar>x\<bar>) (- 1022);
            u = 2 powi (e - 52);
            y = of_int (roundTiesToEven (x / u)) * u
        in if 1024 \<le> floorLog2 \<bar>y\<bar> then (if 0 < x then Infinity else NegInfinity)
           else Num y)"

text \<open>\<open>x + y\<close> on numbers.\<close>

fun add :: "number \<Rightarrow> number \<Rightarrow> number" where
  "add NaN _ = NaN"
| "add _ NaN = NaN"
| "add Infinity NegInfinity = NaN"
| "add NegInfinity Infinity = NaN"
| "add Infinity _ = Infinity"
| "add _ Infinity = Infinity"
| "add NegInfinity _ = NegInfinity"
| "add _ NegInfinity = NegInfinity"
| "add (Num a) (Num b) = roundToDouble (a + b)"

text \<open>\<open>ToIntegerOrInfinity\<close> of a finite number: truncation towards zero.\<close>

definition ToIntegerOrInfinity :: "rat \<Rightarrow> int" where
  "ToIntegerOrInfinity q = (if q < 0 then \<lceil>q\<rceil> else \<lfloor>q\<rfloor>)"

abbreviation (input) msPerSecond :: int where "msPerSecond \<equiv> 1000"
abbreviation (input) msPerMinute :: int where "msPerMinute \<equiv> 60000"
abbreviation (input) msPerHour :: int where "msPerHour \<equiv> 3600000"
abbreviation (input) msPerDay :: int where "msPerDay \<equiv> 86400000"

definition Day :: "int \<Rightarrow> int" where
  "Day t = t div msPerDay"

definition HourFromTime :: "int \<Rightarrow> int" where
  "HourFromTime t = (t div msPerHour) mod 24"

definition MinFromTime :: "int \<Rightarrow> int" where
  "MinFromTime t = (t div msPerMinute) mod 60"

definition SecFromTime :: "int \<Rightarrow> int" where
  "SecFromTime t = (t div msPerSecond) mod 60"

definition msFromTime :: "int \<Rightarrow> int" where
  "msFromTime t = t mod msPerSecond"

definition LocalTime :: "host \<Rightarrow> int \<Rightarrow> int" where
  "LocalTime h t = t + LocalTZA h t True"

definition UTC :: "host \<Rightarrow> int \<Rightarrow> int" where
  "UTC h t = t - LocalTZA h t False"

text \<open>
  \<open>MakeTime\<close>, \<open>MakeDate\<close> and \<open>TimeClip\<close>; \<open>None\<close> is the time value NaN. They add and multiply
  whole numbers, which doubles do exactly up to \<open>2^53\<close>, beyond the range that \<open>TimeClip\<close>
  lets through.
\<close>

fun MakeTime :: "int \<Rightarrow> number \<Rightarrow> int \<Rightarrow> int \<Rightarrow> int option" where
  "MakeTime hour (Num m) sec ms =
     Some (hour * msPerHour + ToIntegerOrInfinity m * msPerMinute + sec * msPerSecond + ms)"
| "MakeTime hour _ sec ms = None"

fun MakeDate :: "int \<Rightarrow> int option \<Rightarrow> int option" where
  "MakeDate day (Some time) = Some (day * msPerDay + time)"
| "MakeDate day None = None"

fun TimeClip :: "int option \<Rightarrow> int option" where
  "TimeClip (Some t) = (if \<bar>t\<bar> > 8640000000000000 then None else Some t)"
| "TimeClip None = None"

text \<open>\<open>d.getMinutes()\<close> and \<open>d.setMinutes(m)\<close> for a Date with the (valid) time value \<open>t\<close>.\<close>

definition getMinutes :: "host \<Rightarrow> int \<Rightarrow> int" where
  "getMinutes h t = MinFromTime (LocalTime h t)"

definition setMinutes :: "host \<Rightarrow> int \<Rightarrow> number \<Rightarrow> int option" where
  "setMinutes h t m =
     (let tl = LocalTime h t;
          date = MakeDate (Day tl) (MakeTime (HourFromTime tl) m (SecFromTime tl) (msFromTime tl))
      in TimeClip (map_option (UTC h) date))"

text \<open>
  \<open>addMinutesToIso\<close>: \<open>None\<close> stands for the RangeError that \<open>toISOString\<close> throws on an
  invalid Date.
\<close>

definition addMinutesToIso :: "host \<Rightarrow> int \<Rightarrow> number \<Rightarrow> int option" where
  "addMinutesToIso h d mins = setMinutes h d (add (Num (of_int (getMinutes h d))) mins)"

section \<open>String helpers\<close>

text \<open>
  \<open>isValidUrl\<close>: the URL constructor either throws (caught, \<open>false\<close>) or yields an object
  whose \<open>protocol\<close> is tested.
\<close>

definition isValidUrl :: "host \<Rightarrow> string \<Rightarrow> bool" where
  "isValidUrl h u =
     (case URL h u of
        None \<Rightarrow> False
      | Some p \<Rightarrow> protocol p \<noteq> [] \<and> (protocol p = ''http:'' \<or> protocol p = ''https:''))"

text \<open>
  The white space and line terminator code units that \<open>String.prototype.trim\<close> strips,
  among the 8-bit code units: TAB, LF, VT, FF, CR, SPACE and NBSP.
\<close>

definition isWhiteSpace :: "char \<Rightarrow> bool" where
  "isWhiteSpace c = (of_char c \<in> {9, 10, 11, 12, 13, 32, 160 :: nat})"

definition trim :: "string \<Rightarrow> string" where
  "trim s = rev (dropWhile isWhiteSpace (rev (dropWhile isWhiteSpace s)))"

text \<open>\<open>s.split(sep)\<close> for a one-character separator; the result is never empty.\<close>

fun split :: "char \<Rightarrow> string \<Rightarrow> string list" where
  "split sep [] = [[]]"
| "split sep (c # cs) =
     (if c = sep then [] # split sep cs
      else (case split sep cs of
              [] \<Rightarrow> [[c]]
            | p # ps \<Rightarrow> (c # p) # ps))"

text \<open>\<open>xs[i]\<close>: \<open>None\<close> is \<open>undefined\<close>.\<close>

fun index :: "'a list \<Rightarrow> nat \<Rightarrow> 'a option" where
  "index [] i = None"
| "index (x # xs) 0 = Some x"
| "index (x # xs) (Suc i) = index xs i"

section \<open>The dashboard\<close>

text \<open>
  The state of \<open>DashboardPage\<close> that \<open>createShort\<close>, \<open>removeLink\<close> and \<open>simulateClick\<close> read
  and set. The page loads \<open>links\<close> from local storage when it mounts and saves it back after
  every change, so one list stands for both. \<open>appLog\<close> only appends to the separate log key
  and swallows its own failures; it is left out.
\<close>

record DashboardPage =
  originalUrl' :: string
  customCode :: string
  validityMinutes :: validity
  links :: "ShortLink list"
  err :: string

datatype completion = Returned | Threw

text \<open>
  The locals \<open>minutes\<close> and \<open>code\<close> of \<open>createShort\<close>:
  \<open>validityMinutes === "" ? 30 : Number(validityMinutes)\<close> and
  \<open>customCode.trim() || genShortCode()\<close>.
\<close>

abbreviation minutesOf :: "validity \<Rightarrow> number" where
  "minutesOf v \<equiv> (case v of Blank \<Rightarrow> Num 30 | Picked n \<Rightarrow> n)"

abbreviation codeOf :: "string \<Rightarrow> string \<Rightarrow> string" where
  "codeOf c rnd \<equiv> (if trim c \<noteq> [] then trim c else rnd)"

text \<open>
  \<open>createShort\<close>, with what it reads from outside as parameters: \<open>uid\<close> is \<open>auth.user!.id\<close>
  (the page is only rendered for a logged-in user), \<open>rnd\<close> is what \<open>genShortCode()\<close> returns
  and \<open>now\<close> is the reading of \<open>nowIso()\<close>.
\<close>

definition createShort ::
  "host \<Rightarrow> string \<Rightarrow> string \<Rightarrow> int \<Rightarrow> DashboardPage \<Rightarrow> completion \<times> DashboardPage" where
  "createShort h uid rnd now st =
     (let st1 = st\<lparr>err := []\<rparr> in
      if \<not> isValidUrl h (originalUrl' st) then
        (Returned, st1\<lparr>err := ''Enter a valid http(s) URL''\<rparr>)
      else
        let minutes = minutesOf (validityMinutes st) in
        if isNaN minutes \<or> le0 minutes then
          (Returned, st1\<lparr>err := ''Validity must be a positive number of minutes''\<rparr>)
        else
          let code = codeOf (customCode st) rnd in
          if find (\<lambda>l. id' l = code) (links st) \<noteq> None then
            (Returned, st1\<lparr>err := ''Short code collision, try another custom code''\<rparr>)
          else
            (case addMinutesToIso h now minutes of
               None \<Rightarrow> (Threw, st1)
             | Some e \<Rightarrow>
                 let newLink = \<lparr>id' = code, originalUrl = originalUrl' st, createdAt = now,
                                expiresAt = e, clicks = [], createdBy = uid\<rparr>
                 in (Returned, st1\<lparr>links := newLink # links st, originalUrl' := [],
                                    customCode := [], validityMinutes := Picked (Num 30)\<rparr>)))"

definition removeLink :: "string \<Rightarrow> DashboardPage \<Rightarrow> DashboardPage" where
  "removeLink i st = st\<lparr>links := filter (\<lambda>l. id' l \<noteq> i) (links st)\<rparr>"

text \<open>\<open>simulateClick\<close>; the optional argument \<open>source\<close> defaults to \<open>"manual-sim"\<close>.\<close>

definition simulateClick ::
  "ShortLink \<Rightarrow> string option \<Rightarrow> int \<Rightarrow> DashboardPage \<Rightarrow> DashboardPage" where
  "simulateClick link src now st =
     (let rec = \<lparr>ts = now, source = (case src of None \<Rightarrow> ''manual-sim'' | Some s \<Rightarrow> s)\<rparr> in
      st\<lparr>links := map (\<lambda>l. if id' l = id' link then l\<lparr>clicks := clicks l @ [rec]\<rparr> else l)
                       (links st)\<rparr>)"

section \<open>The redirect handler\<close>

datatype outcome = NotFound | Expired | Redirect string

text \<open>
  One run of the effect of \<open>RedirectHandler\<close>. \<open>stored\<close> is what \<open>loadLinks()\<close> reads, \<open>pathname\<close> is
  \<open>window.location.pathname\<close>, \<open>referrer\<close> is \<open>document.referrer\<close>, \<open>now\<close> is the clock reading
  of the expiry check and \<open>t\<close> the one of the click record. The result is where the handler
  sends the browser (\<open>/404\<close>, \<open>/expired\<close>, or the original URL) and the stored links after
  it ran. \<open>pathId\<close> is the local \<open>id\<close> of the handler, \<open>parts[2]\<close>: the third piece of the
  path as the browser gives it, not decoded.
\<close>

abbreviation pathId :: "string \<Rightarrow> string option" where
  "pathId pathname \<equiv> index (split CHR ''/'' pathname) 2"

definition RedirectHandler ::
  "ShortLink list \<Rightarrow> string \<Rightarrow> string \<Rightarrow> int \<Rightarrow> int \<Rightarrow> outcome \<times> ShortLink list" where
  "RedirectHandler stored pathname referrer now t =
     (let parts = split CHR ''/'' pathname;
          i = index parts 2
      in case find (\<lambda>l. Some (id' l) = i) stored of
           None \<Rightarrow> (NotFound, stored)
         | Some found \<Rightarrow>
             if expiresAt found < now then (Expired, stored)
             else
               let src = (if referrer = [] then ''direct'' else referrer);
                   rec = \<lparr>ts = t, source = src\<rparr>;
                   updated = map (\<lambda>l. if Some (id' l) = i then l\<lparr>clicks := clicks l @ [rec]\<rparr>
                                       else l) stored
               in (Redirect (originalUrl found), updated))"

section \<open>Sequences of user actions\<close>

text \<open>
  One use of the creation form: what the user enters (the \<open>onChange\<close> handlers store it
  in the state), together with the owner, the generated code and the clock reading that
  \<open>createShort\<close> will see when the button is pressed.
\<close>

record request =
  reqUrl :: string
  reqCode :: string
  reqValidity :: validity
  reqOwner :: string
  reqRnd :: string
  reqNow :: int

definition fillForm :: "request \<Rightarrow> DashboardPage \<Rightarrow> DashboardPage" where
  "fillForm r st = st\<lparr>originalUrl' := reqUrl r, customCode := reqCode r,
                      validityMinutes := reqValidity r\<rparr>"

definition submit :: "host \<Rightarrow> request \<Rightarrow> DashboardPage \<Rightarrow> DashboardPage" where
  "submit h r st = snd (createShort h (reqOwner r) (reqRnd r) (reqNow r) (fillForm r st))"

text \<open>
  The actions that change the links: the Create button, the delete icon, the Sim Click
  button, and a visit that runs the handler on a path (after which the dashboard mounts
  again and loads what the handler saved).
\<close>

datatype action =
    Create request
  | Remove string
  | SimClick ShortLink "string option" int
  | Visit string string int int

fun step :: "host \<Rightarrow> DashboardPage \<Rightarrow> action \<Rightarrow> DashboardPage" where
  "step h st (Create r) = submit h r st"
| "step h st (Remove i) = removeLink i st"
| "step h st (SimClick l s now) = simulateClick l s now st"
| "step h st (Visit p ref now t) = st\<lparr>links := snd (RedirectHandler (links st) p ref now t)\<rparr>"

definition run :: "host \<Rightarrow> DashboardPage \<Rightarrow> action list \<Rightarrow> DashboardPage" where
  "run h st acts = foldl (step h) st acts"

text \<open>The clock readings of the creations of a sequence, in the order of the sequence.\<close>

fun createTimes :: "action list \<Rightarrow> int list" where
  "createTimes [] = []"
| "createTimes (Create r # acts) = reqNow r # createTimes acts"
| "createTimes (_ # acts) = createTimes acts"

text \<open>The dashboard as it first mounts, with nothing in local storage.\<close>

definition initial :: DashboardPage where
  "initial = \<lparr>originalUrl' = [], customCode = [], validityMinutes = Picked (Num 30),
              links = [], err = []\<rparr>"

section \<open>A host for the examples\<close>

text \<open>
  Its \<open>URL\<close> constructor answers as a browser does on the URLs of the examples and throws
  on every other string; its local time is UTC+5:30 all year.
\<close>

definition exampleURL :: "string \<Rightarrow> url option" where
  "exampleURL s =
     (if s = ''https://example.com/x'' \<or> s = ''https://x.com'' then Some \<lparr>protocol = ''https:''\<rparr>
      else if s = ''ftp://x.com'' then Some \<lparr>protocol = ''ftp:''\<rparr>
      else None)"

definition exampleHost :: host where
  "exampleHost = \<lparr>URL = exampleURL, LocalTZA = (\<lambda>t b. 19800000)\<rparr>"

definition exampleForm :: "string \<Rightarrow> string \<Rightarrow> validity \<Rightarrow> DashboardPage" where
  "exampleForm u c v =
     \<lparr>originalUrl' = u, customCode = c, validityMinutes = v, links = [], err = []\<rparr>"

text \<open>
  The link that \<open>createShort\<close> makes on that host at time \<open>T0\<close> from the URL
  \<open>https://example.com/x\<close>, the custom code \<open>abc\<close> and a validity of \<open>m\<close> minutes.
\<close>

definition exampleLink :: "int \<Rightarrow> int \<Rightarrow> ShortLink" where
  "exampleLink T0 m =
     \<lparr>id' = ''abc'', originalUrl = ''https://example.com/x'', createdAt = T0,
      expiresAt = T0 + m * msPerMinute, clicks = [], createdBy = ''owner''\<rparr>"

text \<open>
  The request that enters \<open>https://example.com/x\<close> with the custom code \<open>c\<close> for 60
  minutes and presses Create at time \<open>now\<close>.
\<close>

definition exampleRequest :: "string \<Rightarrow> int \<Rightarrow> request" where
  "exampleRequest c now =
     \<lparr>reqUrl = ''https://example.com/x'', reqCode = c, reqValidity = Picked (Num 60),
      reqOwner = ''owner'', reqRnd = ''zzzzzz'', reqNow = now\<rparr>"

text \<open>
  A session on the example host: two links are made, the first is clicked in the
  dashboard and visited through its short URL, the second is deleted, and a third link
  is made in the same millisecond as the second.
\<close>

definition exampleActions :: "action list" where
  "exampleActions =
     [Create (exampleRequest ''abc'' 0),
      Create (exampleRequest ''xyz'' 9),
      SimClick (exampleLink 0 60) None 9,
      Visit ''/r/abc'' ''ref'' 9 9,
      Remove ''xyz'',
      Create (exampleRequest ''def'' 9)]"

section \<open>Facts about the handler and about creation\<close>

lemma split_no_sep: "sep \<notin> set s \<Longrightarrow> split sep s = [s]"
  by (induction s) auto

text \<open>The third piece of the path \<open>/r/code\<close> is the code, when the code holds no slash.\<close>

lemma pathId_route:
  "CHR ''/'' \<notin> set code \<Longrightarrow> pathId (''/r/'' @ code) = Some code"
  by (simp add: split_no_sep numeral_2_eq_2)

text \<open>On a path whose third piece is a code, the handler looks that code up.\<close>

lemma RedirectHandler_route:
  assumes "pathId pathname = Some code"
  shows "RedirectHandler stored pathname referrer now t =
     (case find (\<lambda>l. id' l = code) stored of
        None \<Rightarrow> (NotFound, stored)
      | Some found \<Rightarrow>
          if expiresAt found < now then (Expired, stored)
          else (Redirect (originalUrl found),
                map (\<lambda>l. if id' l = code
                          then l\<lparr>clicks := clicks l @
                                 [\<lparr>ts = t, source = (if referrer = [] then ''direct'' else referrer)\<rparr>]\<rparr>
                          else l) stored))"
  unfolding RedirectHandler_def assms Let_def
  by (simp split: option.splits)

lemma isValidUrl_iff:
  "isValidUrl h u =
     (\<exists>p. URL h u = Some p \<and> (protocol p = ''http:'' \<or> protocol p = ''https:''))"
  by (auto simp: isValidUrl_def split: option.splits)

lemma find_None_ids: "(find (\<lambda>l. id' l = code) stored = None) = (code \<notin> id' ` set stored)"
  by (auto simp: find_None_iff)

lemma find_distinct_ids:
  "distinct (map id' stored) \<Longrightarrow> l \<in> set stored \<Longrightarrow> find (\<lambda>x. id' x = id' l) stored = Some l"
  by (induction stored) (auto simp: image_iff)

lemma map_other_ids:
  "code \<notin> id' ` set xs \<Longrightarrow> map (\<lambda>x. if id' x = code then f x else x) xs = xs"
  by (induction xs) auto

text \<open>What a successful \<open>createShort\<close> has done: it returned and left no error message.\<close>

lemma createShort_success:
  assumes "createShort h uid rnd now st = (Returned, st')" and "err st' = []"
  shows "st' = st\<lparr>err := [], links := hd (links st') # links st, originalUrl' := [],
                  customCode := [], validityMinutes := Picked (Num 30)\<rparr> \<and>
         links st' = hd (links st') # links st \<and>
         id' (hd (links st')) = codeOf (customCode st) rnd \<and>
         id' (hd (links st')) \<notin> id' ` set (links st) \<and>
         originalUrl (hd (links st')) = originalUrl' st \<and>
         createdAt (hd (links st')) = now \<and>
         clicks (hd (links st')) = [] \<and>
         createdBy (hd (links st')) = uid \<and>
         addMinutesToIso h now (minutesOf (validityMinutes st))
           = Some (expiresAt (hd (links st'))) \<and>
         isValidUrl h (originalUrl' st)"
  using assms unfolding createShort_def Let_def
  by (auto split: if_splits option.splits simp: find_None_iff)

text \<open>The parts into which \<open>setMinutes\<close> takes a local time apart add up to it again.\<close>

lemma time_parts_lin:
  fixes x :: int
  assumes "x = 1000 * A + r" and "A = 60 * B + s" and "B = 60 * C + m" and "C = 24 * D + hh"
  shows "D * 86400000 + (hh * 3600000 + k * 60000 + s * 1000 + r) = x + (k - m) * 60000"
  using assms by (simp add: algebra_simps)

lemma time_parts:
  "Day x * msPerDay +
     (HourFromTime x * msPerHour + k * msPerMinute + SecFromTime x * msPerSecond + msFromTime x)
   = x + (k - MinFromTime x) * msPerMinute"
proof -
  have b: "x div 60000 = (x div 1000) div 60" by (simp add: zdiv_zmult2_eq[symmetric])
  have c: "x div 3600000 = (x div 60000) div 60" by (simp add: zdiv_zmult2_eq[symmetric])
  have d: "x div 86400000 = (x div 3600000) div 24" by (simp add: zdiv_zmult2_eq[symmetric])
  have a: "x = 1000 * (x div 1000) + x mod 1000" by simp
  have a': "x div 1000 = 60 * (x div 60000) + (x div 1000) mod 60" unfolding b by simp
  have b': "x div 60000 = 60 * (x div 3600000) + (x div 60000) mod 60" unfolding c by simp
  have c': "x div 3600000 = 24 * (x div 86400000) + (x div 3600000) mod 24" unfolding d by simp
  show ?thesis
    unfolding Day_def HourFromTime_def MinFromTime_def SecFromTime_def msFromTime_def
    by (rule time_parts_lin[OF a a' b' c'])
qed

text \<open>Rounding to a double leaves the whole numbers below \<open>2^53\<close> as they are.\<close>

lemma bitLength_le: "0 \<le> n \<Longrightarrow> n < 2 ^ k \<Longrightarrow> bitLength n \<le> int k"
proof (induction k arbitrary: n)
  case 0
  then have "n = 0" by simp
  then show ?case by simp
next
  case (Suc k)
  show ?case
  proof (cases "n \<le> 0")
    case True
    then show ?thesis by simp
  next
    case False
    from Suc.prems have "0 \<le> n div 2" and "n div 2 < 2 ^ k" by auto
    then have "bitLength (n div 2) \<le> int k" by (rule Suc.IH)
    with False show ?thesis by (subst bitLength.simps) simp
  qed
qed

lemma roundTiesToEven_int: "roundTiesToEven (of_int z) = z"
  by (simp add: roundTiesToEven_def)

lemma floorLog2_int_le:
  assumes "0 < n" and "n < 2 ^ k"
  shows "floorLog2 (of_int n) \<le> int k - 1"
proof -
  have "bitLength n \<le> int k" using assms by (intro bitLength_le) simp_all
  moreover have "bitLength 1 = 1" by (subst bitLength.simps) simp
  ultimately show ?thesis
    by (simp add: floorLog2_def Let_def)
qed

lemma roundToDouble_int:
  assumes "\<bar>n\<bar> < 2 ^ 53"
  shows "roundToDouble (of_int n) = Num (of_int n)"
proof (cases "n = 0")
  case True
  then show ?thesis by (simp add: roundToDouble_def)
next
  case False
  define e where "e = max (floorLog2 \<bar>of_int n\<bar>) (- 1022)"
  define k where "k = nat (52 - e)"
  have fl: "floorLog2 (of_int \<bar>n\<bar>) \<le> int 53 - 1"
    using False assms by (intro floorLog2_int_le) simp_all
  then have "e \<le> 52" by (simp add: e_def)
  then have ek: "e - 52 = - int k" by (simp add: k_def)
  have u: "(2::rat) powi (e - 52) = inverse (2 ^ k)"
    unfolding ek by (simp add: power_int_minus)
  have q: "rat_of_int n / inverse (2 ^ k) = of_int (n * 2 ^ k)"
    by (simp add: divide_inverse)
  have y: "of_int (roundTiesToEven (rat_of_int n / inverse (2 ^ k))) * inverse (2 ^ k)
             = rat_of_int n"
    unfolding q roundTiesToEven_int by simp
  have small: "\<not> 1024 \<le> floorLog2 \<bar>rat_of_int n\<bar>"
    using fl by simp
  show ?thesis
    using False small
    unfolding roundToDouble_def Let_def e_def[symmetric] u y
    by simp
qed

lemma add_int:
  "\<bar>m + k\<bar> < 2 ^ 53 \<Longrightarrow> add (Num (of_int m)) (Num (of_int k)) = Num (of_int (m + k))"
  using roundToDouble_int[of "m + k"] by simp

lemma ToIntegerOrInfinity_int: "ToIntegerOrInfinity (of_int z) = z"
  by (simp add: ToIntegerOrInfinity_def)

text \<open>
  Where the local offset from UTC never changes, adding a whole number of minutes moves
  the time value by that many minutes, unless the result leaves the range of a Date.
\<close>

lemma addMinutes_fixed_offset:
  assumes "\<forall>t b. LocalTZA h t b = z" and "\<bar>k\<bar> < 2 ^ 52"
  shows "addMinutesToIso h T0 (Num (of_int k)) = TimeClip (Some (T0 + k * msPerMinute))"
proof -
  let ?tl = "T0 + z"
  have "0 \<le> MinFromTime ?tl" and "MinFromTime ?tl < 60"
    by (simp_all add: MinFromTime_def)
  with assms(2) have "\<bar>MinFromTime ?tl + k\<bar> < 2 ^ 53"
    by simp
  then have s: "add (Num (of_int (MinFromTime ?tl))) (Num (of_int k))
                  = Num (of_int (MinFromTime ?tl + k))"
    by (rule add_int)
  have t: "ToIntegerOrInfinity (of_int (MinFromTime ?tl + k)) = MinFromTime ?tl + k"
    by (rule ToIntegerOrInfinity_int)
  have "Day ?tl * msPerDay + (HourFromTime ?tl * msPerHour
          + ToIntegerOrInfinity (of_int (MinFromTime ?tl + k)) * msPerMinute
          + SecFromTime ?tl * msPerSecond + msFromTime ?tl) - z = T0 + k * msPerMinute"
    unfolding t time_parts by simp
  then show ?thesis
    unfolding addMinutesToIso_def setMinutes_def getMinutes_def LocalTime_def UTC_def Let_def
    using assms(1) by (simp add: s del: TimeClip.simps add.simps of_int_add)
qed

text \<open>
  What the actions keep: a creation leaves the links alone or puts one fresh link in
  front; the other actions keep the codes and creation times of the links that stay.
\<close>

lemma createShort_links:
  "links (snd (createShort h uid rnd now st)) = links st \<or>
   (\<exists>l. links (snd (createShort h uid rnd now st)) = l # links st \<and>
        id' l \<notin> id' ` set (links st) \<and> createdAt l = now \<and> clicks l = [])"
  unfolding createShort_def Let_def
  by (auto split: option.splits simp: find_None_iff)

lemma submit_links:
  "links (submit h r st) = links st \<or>
   (\<exists>l. links (submit h r st) = l # links st \<and>
        id' l \<notin> id' ` set (links st) \<and> createdAt l = reqNow r \<and> clicks l = [])"
  using createShort_links[of h "reqOwner r" "reqRnd r" "reqNow r" "fillForm r st"]
  by (simp add: submit_def fillForm_def)

lemma RedirectHandler_keeps:
  "map id' (snd (RedirectHandler stored p ref now t)) = map id' stored \<and>
   map createdAt (snd (RedirectHandler stored p ref now t)) = map createdAt stored"
  by (simp add: RedirectHandler_def Let_def comp_def split: option.splits)

lemma simulateClick_keeps:
  "map id' (links (simulateClick l s now st)) = map id' (links st) \<and>
   map createdAt (links (simulateClick l s now st)) = map createdAt (links st)"
  by (simp add: simulateClick_def Let_def comp_def)

lemma step_distinct:
  assumes "distinct (map id' (links st))"
  shows "distinct (map id' (links (step h st a)))"
proof (cases a)
  case (Create r)
  then show ?thesis
    using submit_links[of h r st] assms by auto
next
  case (Remove i)
  then show ?thesis
    using assms by (simp add: removeLink_def distinct_map_filter)
next
  case (SimClick l s now)
  then show ?thesis
    using simulateClick_keeps[of l s now st] assms by simp
next
  case (Visit p ref now t)
  then show ?thesis
    using RedirectHandler_keeps[of "links st" p ref now t] assms by simp
qed

lemma run_distinct:
  "distinct (map id' (links st)) \<Longrightarrow> distinct (map id' (links (run h st acts)))"
  unfolding run_def
  by (induction acts arbitrary: st) (simp_all add: step_distinct)

lemma step_sorted:
  assumes "sorted_wrt (\<ge>) (map createdAt (links st))"
    and "\<forall>c \<in> set (map createdAt (links st)). \<forall>t \<in> set (createTimes (a # acts)). c \<le> t"
    and "sorted (createTimes (a # acts))"
  shows "sorted_wrt (\<ge>) (map createdAt (links (step h st a))) \<and>
         (\<forall>c \<in> set (map createdAt (links (step h st a))). \<forall>t \<in> set (createTimes acts). c \<le> t) \<and>
         sorted (createTimes acts)"
proof (cases a)
  case (Create r)
  from submit_links[of h r st] show ?thesis
  proof
    assume "links (submit h r st) = links st"
    then show ?thesis using assms Create by simp
  next
    assume "\<exists>l. links (submit h r st) = l # links st \<and>
        id' l \<notin> id' ` set (links st) \<and> createdAt l = reqNow r \<and> clicks l = []"
    then obtain l where "links (submit h r st) = l # links st" and "createdAt l = reqNow r"
      by blast
    then show ?thesis using assms Create by auto
  qed
next
  case (Remove i)
  have "sorted_wrt (\<ge>) (map createdAt (filter (\<lambda>l. id' l \<noteq> i) (links st)))"
    using assms(1) by (simp add: sorted_wrt_map sorted_wrt_filter)
  then show ?thesis using assms Remove by (simp add: removeLink_def)
next
  case (SimClick l s now)
  then show ?thesis
    using simulateClick_keeps[of l s now st] assms by simp
next
  case (Visit p ref now t)
  then show ?thesis
    using RedirectHandler_keeps[of "links st" p ref now t] assms by simp
qed

lemma run_sorted:
  assumes "sorted_wrt (\<ge>) (map createdAt (links st))"
    and "\<forall>c \<in> set (map createdAt (links st)). \<forall>t \<in> set (createTimes acts). c \<le> t"
    and "sorted (createTimes acts)"
  shows "sorted_wrt (\<ge>) (map createdAt (links (run h st acts)))"
  using assms unfolding run_def
proof (induction acts arbitrary: st)
  case Nil
  then show ?case by simp
next
  case (Cons a acts)
  from step_sorted[OF Cons.prems] Cons.IH[of "step h st a"]
  show ?case by simp
qed

text \<open>\<open>trim\<close> removes white space from both ends and nothing else.\<close>

lemma trim_decomp:
  "\<exists>pre post. s = pre @ trim s @ post \<and>
     (\<forall>c \<in> set pre. isWhiteSpace c) \<and> (\<forall>c \<in> set post. isWhiteSpace c)"
proof -
  let ?d = "dropWhile isWhiteSpace s"
  let ?pre = "takeWhile isWhiteSpace s"
  let ?post = "rev (takeWhile isWhiteSpace (rev ?d))"
  have "trim s @ ?post = rev (takeWhile isWhiteSpace (rev ?d) @ dropWhile isWhiteSpace (rev ?d))"
    by (simp only: trim_def rev_append)
  also have "\<dots> = rev (rev ?d)"
    by (simp only: takeWhile_dropWhile_id)
  finally have d: "?d = trim s @ ?post"
    by simp
  have "s = ?pre @ ?d" by simp
  with d have "s = ?pre @ trim s @ ?post" by simp
  moreover have "\<forall>c \<in> set ?pre. isWhiteSpace c"
    by (auto dest: set_takeWhileD)
  moreover have "\<forall>c \<in> set ?post. isWhiteSpace c"
    by (auto dest: set_takeWhileD)
  ultimately show ?thesis by blast
qed

lemma trim_id:
  assumes "s \<noteq> []" and "\<not> isWhiteSpace (hd s)" and "\<not> isWhiteSpace (last s)"
  shows "trim s = s"
proof -
  have a: "dropWhile isWhiteSpace s = s"
    using assms(1,2) by (cases s) simp_all
  have "rev s \<noteq> []" and "\<not> isWhiteSpace (hd (rev s))"
    using assms(1,3) by (simp_all add: hd_rev)
  then have "dropWhile isWhiteSpace (rev s) = rev s"
    by (cases "rev s") simp_all
  with a show ?thesis by (simp add: trim_def)
qed

text \<open>Where each code occurs once, filtering a code out removes the one link that has it.\<close>

lemma filter_other_ids:
  "c \<notin> id' ` set xs \<Longrightarrow> filter (\<lambda>x. id' x \<noteq> c) xs = xs"
  by (induction xs) auto

lemma filter_id_remove1:
  "distinct (map id' xs) \<Longrightarrow> l \<in> set xs \<Longrightarrow> filter (\<lambda>x. id' x \<noteq> id' l) xs = remove1 l xs"
proof (induction xs)
  case Nil
  then show ?case by simp
next
  case (Cons x xs)
  show ?case
  proof (cases "x = l")
    case True
    with Cons.prems have "id' l \<notin> id' ` set xs" by simp
    then have "filter (\<lambda>x. id' x \<noteq> id' l) xs = xs"
      by (rule filter_other_ids)
    with True show ?thesis by simp
  next
    case False
    with Cons.prems have "l \<in> set xs" and "id' x \<noteq> id' l" by auto
    with Cons False show ?thesis by auto
  qed
qed

text \<open>A creation with acceptable input and a code that no link has goes through.\<close>

lemma createShort_fresh:
  assumes "isValidUrl h (originalUrl' st)"
    and "\<not> isNaN (minutesOf (validityMinutes st))"
    and "\<not> le0 (minutesOf (validityMinutes st))"
    and "codeOf (customCode st) rnd \<notin> id' ` set (links st)"
    and "addMinutesToIso h now (minutesOf (validityMinutes st)) = Some e"
  shows "createShort h uid rnd now st
      = (Returned,
         st\<lparr>err := [],
            links := \<lparr>id' = codeOf (customCode st) rnd, originalUrl = originalUrl' st,
                      createdAt = now, expiresAt = e, clicks = [], createdBy = uid\<rparr>
                     # links st,
            originalUrl' := [], customCode := [], validityMinutes := Picked (Num 30)\<rparr>)"
proof -
  have "find (\<lambda>l. id' l = codeOf (customCode st) rnd) (links st) = None"
    using assms(4) find_None_ids[of "codeOf (customCode st) rnd" "links st"] by blast
  then show ?thesis
    using assms(1,2,3,5) unfolding createShort_def Let_def by simp
qed

text \<open>What \<open>trim\<close> returns neither starts nor ends with white space.\<close>

lemma last_dropWhile_eq: "dropWhile P xs \<noteq> [] \<Longrightarrow> last (dropWhile P xs) = last xs"
proof -
  assume "dropWhile P xs \<noteq> []"
  then have "last (takeWhile P xs @ dropWhile P xs) = last (dropWhile P xs)"
    by (rule last_appendR)
  then show ?thesis by simp
qed

lemma trim_ends:
  assumes "trim s \<noteq> []"
  shows "\<not> isWhiteSpace (hd (trim s)) \<and> \<not> isWhiteSpace (last (trim s))"
proof -
  let ?d = "dropWhile isWhiteSpace s"
  let ?r = "dropWhile isWhiteSpace (rev ?d)"
  have t: "trim s = rev ?r" by (simp add: trim_def)
  with assms have r: "?r \<noteq> []" by simp
  have d: "?d \<noteq> []"
  proof
    assume "?d = []"
    then have "?r = []" by (simp only: rev.simps dropWhile.simps)
    with r show False by simp
  qed
  have "\<not> isWhiteSpace (hd ?r)" using r by (rule hd_dropWhile)
  then have l: "\<not> isWhiteSpace (last (trim s))"
    using r by (simp add: t last_rev)
  have "last ?r = last (rev ?d)" using r by (rule last_dropWhile_eq)
  also have "\<dots> = hd ?d" using d by (simp add: last_rev)
  finally have "hd (trim s) = hd ?d"
    using r by (simp add: t hd_rev)
  moreover have "\<not> isWhiteSpace (hd ?d)" using d by (rule hd_dropWhile)
  ultimately show ?thesis using l by simp
qed

text \<open>
  A sum that is not a double is rounded: \<open>30 + 1.9999999999999998\<close>, whose second term is
  the double \<open>2 - 2^-52\<close>, is \<open>32\<close>.
\<close>

lemma add_rounds:
  "add (Num 30) (Num (2 - 1 / 2 ^ 52)) = Num 32"
  by code_simp

section \<open>Expiry\<close>

text \<open>
  C1, as the program has it. The handler tests \<open>new Date(found.expiresAt) < new Date()\<close>:
  a visit ends on the expired page exactly when the expiry time of the link that the
  lookup returns lies strictly before the time of the visit. So a link made at \<open>T0\<close> with a
  validity of 30 minutes, on a host whose offset from UTC does not change, expires at
  \<open>T0 + 30 min\<close>; a visit at \<open>T0 + 29 min 59 s\<close> and a visit at exactly \<open>T0 + 30 min\<close> both
  go to the original URL, and every later visit goes to the expired page. The visits are
  on any path whose third piece is the code of the link.
\<close>

theorem expiry_is_exclusive:
  "(pathId pathname = Some code \<and> find (\<lambda>l. id' l = code) stored = Some found \<longrightarrow>
      (fst (RedirectHandler stored pathname referrer now t) = Expired)
        = (expiresAt found < now)) \<and>
   ((\<forall>t b. LocalTZA h t b = z) \<and>
    createShort h uid rnd T0 (st\<lparr>validityMinutes := Picked (Num 30)\<rparr>) = (Returned, st') \<and>
    err st' = [] \<and> pathId pathname = Some (id' (hd (links st'))) \<longrightarrow>
      expiresAt (hd (links st')) = T0 + 1800000 \<and>
      fst (RedirectHandler (links st') pathname referrer (T0 + 1799000) t)
        = Redirect (originalUrl' st) \<and>
      fst (RedirectHandler (links st') pathname referrer (T0 + 1800000) t)
        = Redirect (originalUrl' st) \<and>
      (T0 + 1800000 < now \<longrightarrow>
         fst (RedirectHandler (links st') pathname referrer now t) = Expired))"
proof (intro conjI impI)
  assume "pathId pathname = Some code \<and> find (\<lambda>l. id' l = code) stored = Some found"
  then have p: "pathId pathname = Some code"
    and f: "find (\<lambda>l. id' l = code) stored = Some found"
    by simp_all
  show "(fst (RedirectHandler stored pathname referrer now t) = Expired)
               = (expiresAt found < now)"
    by (simp add: RedirectHandler_route[OF p] f)
next
  assume hyp: "(\<forall>t b. LocalTZA h t b = z) \<and>
          createShort h uid rnd T0 (st\<lparr>validityMinutes := Picked (Num 30)\<rparr>) = (Returned, st') \<and>
          err st' = [] \<and> pathId pathname = Some (id' (hd (links st')))"
  let ?l = "hd (links st')"
  from hyp have fixed: "\<forall>t b. LocalTZA h t b = z"
    and c: "createShort h uid rnd T0 (st\<lparr>validityMinutes := Picked (Num 30)\<rparr>) = (Returned, st')"
    and e: "err st' = []" and p: "pathId pathname = Some (id' ?l)"
    by simp_all
  from createShort_success[OF c e]
  have ls: "links st' = ?l # links st" and ou: "originalUrl ?l = originalUrl' st"
    and am: "addMinutesToIso h T0 (Num 30) = Some (expiresAt ?l)"
    by simp_all
  have "addMinutesToIso h T0 (Num (of_int 30)) = TimeClip (Some (T0 + 30 * msPerMinute))"
    using fixed by (rule addMinutes_fixed_offset) simp
  with am have "TimeClip (Some (T0 + 1800000)) = Some (expiresAt ?l)"
    by simp
  then show ex: "expiresAt ?l = T0 + 1800000"
    by (simp split: if_splits)
  have f: "find (\<lambda>l. id' l = id' ?l) (links st') = Some ?l"
    by (subst ls) simp
  show "fst (RedirectHandler (links st') pathname referrer (T0 + 1799000) t)
          = Redirect (originalUrl' st)"
    by (simp add: RedirectHandler_route[OF p] f ex ou)
  show "fst (RedirectHandler (links st') pathname referrer (T0 + 1800000) t)
          = Redirect (originalUrl' st)"
    by (simp add: RedirectHandler_route[OF p] f ex ou)
  show "fst (RedirectHandler (links st') pathname referrer now t) = Expired"
    if "T0 + 1800000 < now"
    using that by (simp add: RedirectHandler_route[OF p] f ex)
qed

text \<open>
  The example link made at time 0 for 30 minutes: live one second before its expiry and
  at its expiry, expired one millisecond later.
\<close>

theorem expiry_is_exclusive_witness:
  "expiresAt (hd (links (initial\<lparr>links := [exampleLink 0 30]\<rparr>))) = 1800000 \<and>
   fst (RedirectHandler [exampleLink 0 30] ''/r/abc'' ''ref'' 1799000 1799000)
     = Redirect ''https://example.com/x'' \<and>
   fst (RedirectHandler [exampleLink 0 30] ''/r/abc'' ''ref'' 1800000 1800000)
     = Redirect ''https://example.com/x'' \<and>
   fst (RedirectHandler [exampleLink 0 30] ''/r/abc'' ''ref'' 1800001 1800001)
     = Expired"
proof -
  let ?f = "exampleForm ''https://example.com/x'' ''abc'' Blank"
  let ?s = "initial\<lparr>links := [exampleLink 0 30]\<rparr>"
  have z: "\<forall>t b. LocalTZA exampleHost t b = 19800000"
    by (simp add: exampleHost_def)
  have c: "createShort exampleHost ''owner'' ''zzzzzz'' 0 (?f\<lparr>validityMinutes := Picked (Num 30)\<rparr>)
             = (Returned, ?s)"
    by code_simp
  have e: "err ?s = [] \<and> pathId ''/r/abc'' = Some (id' (hd (links ?s)))"
    by (simp add: initial_def exampleLink_def numeral_2_eq_2)
  have n: "(0::int) + 1800000 < 1800001" by simp
  note th = expiry_is_exclusive[where h = exampleHost and z = 19800000 and uid = "''owner''"
      and rnd = "''zzzzzz''" and ?T0.0 = 0 and st = ?f and st' = ?s and referrer = "''ref''"
      and now = 1800001 and pathname = "''/r/abc''"]
  have "expiresAt (hd (links ?s)) = 0 + 1800000 \<and>
        fst (RedirectHandler (links ?s) ''/r/abc'' ''ref'' (0 + 1799000) 1799000)
          = Redirect (originalUrl' ?f) \<and>
        fst (RedirectHandler (links ?s) ''/r/abc'' ''ref'' (0 + 1800000) 1800000)
          = Redirect (originalUrl' ?f) \<and>
        fst (RedirectHandler (links ?s) ''/r/abc'' ''ref'' 1800001 1800001) = Expired"
    using th[where t = 1799000] th[where t = 1800000] th[where t = 1800001] z c e n
    by blast
  then show ?thesis
    by (simp add: exampleForm_def)
qed

text \<open>
  The claim as stated, with the expiry instant itself counted as expired, fails on the
  example link made at time 0 for 30 minutes: a visit at exactly 30 minutes is not sent to
  the expired page.
\<close>

theorem expiry_inclusive_counterexample:
  "createShort exampleHost ''owner'' ''zzzzzz'' 0
      (exampleForm ''https://example.com/x'' ''abc'' (Picked (Num 30)))
     = (Returned, initial\<lparr>links := [exampleLink 0 30]\<rparr>) \<and>
   expiresAt (exampleLink 0 30) \<le> 1800000 \<and>
   fst (RedirectHandler [exampleLink 0 30] ''/r/abc'' ''ref'' 1800000 1800000)
     = Redirect ''https://example.com/x'' \<and>
   fst (RedirectHandler [exampleLink 0 30] ''/r/abc'' ''ref'' 1800000 1800000)
     \<noteq> Expired"
proof -
  have "createShort exampleHost ''owner'' ''zzzzzz'' 0
      (exampleForm ''https://example.com/x'' ''abc'' (Picked (Num 30)))
     = (Returned, initial\<lparr>links := [exampleLink 0 30]\<rparr>)"
    by code_simp
  moreover have "pathId ''/r/abc'' = Some ''abc''"
    by (simp add: numeral_2_eq_2)
  then have "fst (RedirectHandler [exampleLink 0 30] ''/r/abc'' ''ref'' 1800000 1800000)
     = Redirect ''https://example.com/x''"
    by (simp add: RedirectHandler_route exampleLink_def)
  ultimately show ?thesis
    by (simp add: exampleLink_def)
qed

section \<open>Resolution\<close>

text \<open>
  C2, as the program has it. Resolution is a three-way decision on the code that the
  handler reads from the path, the third piece of the path as the browser gives it. When
  the path has no third piece, or no stored link has that code, the handler goes to the
  not-found page; when the link that the lookup returns has expired it goes to the
  expired page; otherwise it goes to the original URL of that link, the stored list keeps
  its length and order, and every link with the code gets exactly one click appended,
  whose source is the referrer (or \<open>direct\<close> for an empty referrer), while every other link
  is unchanged. So a visit to a link that \<open>createShort\<close> has just made, while it has not
  expired and on a path whose third piece is exactly the code of the link, goes to the
  URL that was entered and leaves that link with exactly one click. The path \<open>/r/code\<close> is
  such a path when the code holds no slash; it is the path of the link's short URL when
  the browser leaves the code as it is, as it does with letters and digits.
\<close>

theorem resolve_three_way:
  "let R = RedirectHandler stored pathname referrer now t;
       rec = \<lparr>ts = t, source = (if referrer = [] then ''direct'' else referrer)\<rparr>
   in (pathId pathname = None \<longrightarrow> fst R = NotFound) \<and>
      (pathId pathname = Some code \<longrightarrow>
         (code \<notin> id' ` set stored \<longrightarrow> fst R = NotFound) \<and>
         (find (\<lambda>l. id' l = code) stored = Some found \<longrightarrow>
            (expiresAt found < now \<longrightarrow> fst R = Expired) \<and>
            (\<not> expiresAt found < now \<longrightarrow>
               fst R = Redirect (originalUrl found) \<and>
               length (snd R) = length stored \<and>
               (\<forall>k < length stored.
                  snd R ! k = (if id' (stored ! k) = code
                               then (stored ! k)\<lparr>clicks := clicks (stored ! k) @ [rec]\<rparr>
                               else stored ! k))))) \<and>
      (createShort h uid rnd T0 st = (Returned, st') \<and> err st' = [] \<and>
       pathId pathname = Some (id' (hd (links st'))) \<and> \<not> expiresAt (hd (links st')) < now \<longrightarrow>
         RedirectHandler (links st') pathname referrer now t =
           (Redirect (originalUrl' st), (hd (links st'))\<lparr>clicks := [rec]\<rparr> # links st)) \<and>
      (CHR ''/'' \<notin> set code \<longrightarrow> pathId (''/r/'' @ code) = Some code)"
proof -
  have none: "fst (RedirectHandler stored pathname referrer now t) = NotFound"
    if "pathId pathname = None"
  proof -
    have "find (\<lambda>l. Some (id' l) = None) stored = None"
      by (induction stored) simp_all
    then show ?thesis
      unfolding RedirectHandler_def Let_def that by simp
  qed
  have nf: "fst (RedirectHandler stored pathname referrer now t) = NotFound"
    if "pathId pathname = Some code" and "code \<notin> id' ` set stored"
    using that(2) by (simp add: RedirectHandler_route[OF that(1)] find_None_ids[symmetric])
  have rt: "RedirectHandler (links st') pathname referrer now t =
      (Redirect (originalUrl' st),
       (hd (links st'))\<lparr>clicks := [\<lparr>ts = t, source = (if referrer = [] then ''direct''
                                                         else referrer)\<rparr>]\<rparr>
         # links st)"
    if c: "createShort h uid rnd T0 st = (Returned, st')" and e: "err st' = []"
      and p: "pathId pathname = Some (id' (hd (links st')))"
      and live: "\<not> expiresAt (hd (links st')) < now"
  proof -
    let ?l = "hd (links st')"
    note s = createShort_success[OF c e]
    have ls: "links st' = ?l # links st" using s by blast
    have fresh: "id' ?l \<notin> id' ` set (links st)" using s by blast
    have ou: "originalUrl ?l = originalUrl' st" using s by blast
    have cl: "clicks ?l = []" using s by blast
    have m: "map (\<lambda>x. if id' x = id' ?l then x\<lparr>clicks := clicks x @ [r]\<rparr> else x) (links st)
            = links st" for r
      using fresh by (rule map_other_ids)
    have "RedirectHandler (?l # links st) pathname referrer now t =
      (Redirect (originalUrl' st),
       ?l\<lparr>clicks := [\<lparr>ts = t, source = (if referrer = [] then ''direct'' else referrer)\<rparr>]\<rparr>
         # links st)"
      using live ou cl by (simp add: RedirectHandler_route[OF p] m)
    then show ?thesis
      using ls by simp
  qed
  show ?thesis
    unfolding Let_def
  proof (intro conjI impI allI)
    assume "pathId pathname = None"
    then show "fst (RedirectHandler stored pathname referrer now t) = NotFound"
      by (rule none)
  next
    assume "pathId pathname = Some code" and "code \<notin> id' ` set stored"
    then show "fst (RedirectHandler stored pathname referrer now t) = NotFound"
      by (rule nf)
  next
    assume p: "pathId pathname = Some code"
      and f: "find (\<lambda>l. id' l = code) stored = Some found"
    show "fst (RedirectHandler stored pathname referrer now t) = Expired"
      if "expiresAt found < now"
      using that f by (simp add: RedirectHandler_route[OF p])
    show "fst (RedirectHandler stored pathname referrer now t) = Redirect (originalUrl found)"
      if "\<not> expiresAt found < now"
      using that f by (simp add: RedirectHandler_route[OF p])
    show "length (snd (RedirectHandler stored pathname referrer now t)) = length stored"
      if "\<not> expiresAt found < now"
      using that f by (simp add: RedirectHandler_route[OF p])
    show "snd (RedirectHandler stored pathname referrer now t) ! k =
            (if id' (stored ! k) = code
             then (stored ! k)\<lparr>clicks := clicks (stored ! k) @
                    [\<lparr>ts = t, source = (if referrer = [] then ''direct'' else referrer)\<rparr>]\<rparr>
             else stored ! k)"
      if "\<not> expiresAt found < now" and "k < length stored" for k
      using that f by (simp add: RedirectHandler_route[OF p])
  next
    assume "createShort h uid rnd T0 st = (Returned, st') \<and> err st' = [] \<and>
       pathId pathname = Some (id' (hd (links st'))) \<and> \<not> expiresAt (hd (links st')) < now"
    then show "RedirectHandler (links st') pathname referrer now t =
      (Redirect (originalUrl' st),
       (hd (links st'))\<lparr>clicks := [\<lparr>ts = t, source = (if referrer = [] then ''direct''
                                                         else referrer)\<rparr>]\<rparr>
         # links st)"
      using rt by blast
  next
    assume "CHR ''/'' \<notin> set code"
    then show "pathId (''/r/'' @ code) = Some code"
      by (rule pathId_route)
  qed
qed

text \<open>
  The round trip of the specification on the example host: the link \<open>abc\<close> made at time 0
  for 60 minutes, visited one minute later from the referrer \<open>ref\<close>; and an unknown code.
\<close>

theorem resolve_three_way_witness:
  "RedirectHandler
     (links (snd (createShort exampleHost ''owner'' ''zzzzzz'' 0
        (exampleForm ''https://example.com/x'' ''abc'' (Picked (Num 60))))))
     ''/r/abc'' ''ref'' 60000 60000
   = (Redirect ''https://example.com/x'',
      [(exampleLink 0 60)\<lparr>clicks := [\<lparr>ts = 60000, source = ''ref''\<rparr>]\<rparr>]) \<and>
   fst (RedirectHandler [exampleLink 0 60] ''/r/doesnotexist'' ''ref'' 60000 60000)
     = NotFound"
proof -
  let ?f = "exampleForm ''https://example.com/x'' ''abc'' (Picked (Num 60))"
  let ?s = "initial\<lparr>links := [exampleLink 0 60]\<rparr>"
  have c: "createShort exampleHost ''owner'' ''zzzzzz'' 0 ?f = (Returned, ?s)"
    by code_simp
  have d: "pathId ''/r/doesnotexist'' = Some ''doesnotexist'' \<and>
           ''doesnotexist'' \<notin> id' ` set [exampleLink 0 60]"
    by (simp add: exampleLink_def numeral_2_eq_2)
  have e: "err ?s = [] \<and> pathId ''/r/abc'' = Some (id' (hd (links ?s))) \<and>
           \<not> expiresAt (hd (links ?s)) < 60000"
    by (simp add: initial_def exampleLink_def numeral_2_eq_2)
  have "RedirectHandler (links ?s) ''/r/abc'' ''ref'' 60000 60000
        = (Redirect (originalUrl' ?f),
           (hd (links ?s))\<lparr>clicks := [\<lparr>ts = 60000, source = ''ref''\<rparr>]\<rparr> # links ?f)"
    using resolve_three_way[where pathname = "''/r/abc''" and referrer = "''ref''"
        and now = 60000 and t = 60000
        and h = exampleHost and uid = "''owner''" and rnd = "''zzzzzz''" and ?T0.0 = 0
        and st = ?f and st' = ?s] c e
    unfolding Let_def by simp
  moreover have "fst (RedirectHandler [exampleLink 0 60] ''/r/doesnotexist'' ''ref''
                   60000 60000) = NotFound"
    using resolve_three_way[where stored = "[exampleLink 0 60]"
        and pathname = "''/r/doesnotexist''" and code = "''doesnotexist''"
        and referrer = "''ref''" and now = 60000 and t = 60000] d
    unfolding Let_def by blast
  ultimately show ?thesis
    unfolding c by (simp add: exampleForm_def)
qed

text \<open>
  The claim as stated, for every code, fails on codes that the path of the short URL does
  not carry as they are; \<open>createShort\<close> takes any custom code that trims to a non-empty
  string. For the code \<open>a b\<close> the browser gives the path of the short URL
  \<open>http://localhost:3000/r/a b\<close> as \<open>/r/a%20b\<close>, and the handler looks up \<open>a%20b\<close>. For the code
  \<open>a/b\<close> the third piece of the path \<open>/r/a/b\<close> is \<open>a\<close> (and the route \<open>/r/:id\<close> does not match
  that path at all). Both links exist and have not expired one minute after they were
  made, yet a visit of their short URLs is not sent to the original URL and records no
  click: the handler, run on these paths, goes to the not-found page.
\<close>

theorem resolve_live_link_counterexample:
  "createShort exampleHost ''owner'' ''zzzzzz'' 0
       (exampleForm ''https://example.com/x'' ''a b'' (Picked (Num 60)))
     = (Returned, initial\<lparr>links := [(exampleLink 0 60)\<lparr>id' := ''a b''\<rparr>]\<rparr>) \<and>
   \<not> expiresAt ((exampleLink 0 60)\<lparr>id' := ''a b''\<rparr>) < 60000 \<and>
   RedirectHandler [(exampleLink 0 60)\<lparr>id' := ''a b''\<rparr>] ''/r/a%20b'' ''ref'' 60000 60000
     = (NotFound, [(exampleLink 0 60)\<lparr>id' := ''a b''\<rparr>]) \<and>
   createShort exampleHost ''owner'' ''zzzzzz'' 0
       (exampleForm ''https://example.com/x'' ''a/b'' (Picked (Num 60)))
     = (Returned, initial\<lparr>links := [(exampleLink 0 60)\<lparr>id' := ''a/b''\<rparr>]\<rparr>) \<and>
   \<not> expiresAt ((exampleLink 0 60)\<lparr>id' := ''a/b''\<rparr>) < 60000 \<and>
   RedirectHandler [(exampleLink 0 60)\<lparr>id' := ''a/b''\<rparr>] ''/r/a/b'' ''ref'' 60000 60000
     = (NotFound, [(exampleLink 0 60)\<lparr>id' := ''a/b''\<rparr>])"
proof -
  have "createShort exampleHost ''owner'' ''zzzzzz'' 0
       (exampleForm ''https://example.com/x'' ''a b'' (Picked (Num 60)))
     = (Returned, initial\<lparr>links := [(exampleLink 0 60)\<lparr>id' := ''a b''\<rparr>]\<rparr>)"
    by code_simp
  moreover have "createShort exampleHost ''owner'' ''zzzzzz'' 0
       (exampleForm ''https://example.com/x'' ''a/b'' (Picked (Num 60)))
     = (Returned, initial\<lparr>links := [(exampleLink 0 60)\<lparr>id' := ''a/b''\<rparr>]\<rparr>)"
    by code_simp
  moreover have "RedirectHandler [(exampleLink 0 60)\<lparr>id' := ''a b''\<rparr>] ''/r/a%20b'' ''ref''
       60000 60000 = (NotFound, [(exampleLink 0 60)\<lparr>id' := ''a b''\<rparr>])"
    by (simp add: RedirectHandler_def exampleLink_def numeral_2_eq_2)
  moreover have "RedirectHandler [(exampleLink 0 60)\<lparr>id' := ''a/b''\<rparr>] ''/r/a/b'' ''ref''
       60000 60000 = (NotFound, [(exampleLink 0 60)\<lparr>id' := ''a/b''\<rparr>])"
    by (simp add: RedirectHandler_def exampleLink_def numeral_2_eq_2)
  ultimately show ?thesis
    by (simp add: exampleLink_def)
qed

text \<open>
  C3. Visiting an expired link records nothing. On any path whose third piece is a code,
  when the link that the lookup returns for the code has expired, the handler goes to the
  expired page and the stored links are exactly what they were, so the clicks of every
  link are as before. This covers every expired link of a store in which each code occurs
  once.
\<close>

theorem expired_resolution_records_nothing:
  "(pathId pathname = Some code \<and>
    find (\<lambda>l. id' l = code) stored = Some found \<and> expiresAt found < now \<longrightarrow>
      RedirectHandler stored pathname referrer now t = (Expired, stored)) \<and>
   (pathId pathname = Some code \<and>
    distinct (map id' stored) \<and> l \<in> set stored \<and> id' l = code \<and> expiresAt l < now \<longrightarrow>
      RedirectHandler stored pathname referrer now t = (Expired, stored))"
proof -
  have a: "RedirectHandler stored pathname referrer now t = (Expired, stored)"
    if "pathId pathname = Some code" and "find (\<lambda>l. id' l = code) stored = Some f"
      and "expiresAt f < now" for f
    using that(2,3) by (simp add: RedirectHandler_route[OF that(1)])
  have b: "find (\<lambda>x. id' x = code) stored = Some l"
    if "distinct (map id' stored)" and "l \<in> set stored" and "id' l = code"
    using find_distinct_ids[OF that(1,2)] that(3) by simp
  show ?thesis using a b by blast
qed

text \<open>The 60-minute example link, visited one millisecond after its expiry.\<close>

theorem expired_resolution_records_nothing_witness:
  "RedirectHandler [exampleLink 0 60] ''/r/abc'' ''ref'' 3600001 3600001
     = (Expired, [exampleLink 0 60]) \<and>
   map (length \<circ> clicks)
     (snd (RedirectHandler [exampleLink 0 60] ''/r/abc'' ''ref'' 3600001 3600001)) = [0]"
proof -
  have b: "pathId ''/r/abc'' = Some ''abc'' \<and>
           distinct (map id' [exampleLink 0 60]) \<and> exampleLink 0 60 \<in> set [exampleLink 0 60] \<and>
           id' (exampleLink 0 60) = ''abc'' \<and> expiresAt (exampleLink 0 60) < 3600001"
    by (simp add: exampleLink_def numeral_2_eq_2)
  have "RedirectHandler [exampleLink 0 60] ''/r/abc'' ''ref'' 3600001 3600001
          = (Expired, [exampleLink 0 60])"
    using expired_resolution_records_nothing[where stored = "[exampleLink 0 60]"
        and pathname = "''/r/abc''" and code = "''abc''"
        and l = "exampleLink 0 60" and now = 3600001 and referrer = "''ref''" and t = 3600001] b
    by blast
  then show ?thesis by (simp add: exampleLink_def)
qed

section \<open>The registry of links\<close>

text \<open>
  C4. Codes stay unique. Whatever requests are submitted one after the other, starting
  from links with pairwise different codes (the empty list of the first mount among
  them), the links held afterwards have pairwise different codes. A submission whose code
  (the trimmed custom code, or else the generated one) is already taken returns with an
  error message and the same links; when the URL and the validity are acceptable, the
  message is the collision message.
\<close>

theorem codes_stay_unique:
  "(distinct (map id' (links st)) \<longrightarrow> distinct (map id' (links (run h st (map Create rs))))) \<and>
   distinct (map id' (links (run h initial (map Create rs)))) \<and>
   (codeOf (customCode st) rnd \<in> id' ` set (links st) \<longrightarrow>
      fst (createShort h uid rnd now st) = Returned \<and>
      links (snd (createShort h uid rnd now st)) = links st \<and>
      err (snd (createShort h uid rnd now st)) \<noteq> [] \<and>
      (isValidUrl h (originalUrl' st) \<and> \<not> isNaN (minutesOf (validityMinutes st)) \<and>
       \<not> le0 (minutesOf (validityMinutes st)) \<longrightarrow>
         createShort h uid rnd now st
           = (Returned, st\<lparr>err := ''Short code collision, try another custom code''\<rparr>)))"
proof (intro conjI impI)
  show "distinct (map id' (links (run h st (map Create rs))))" if "distinct (map id' (links st))"
    using that by (rule run_distinct)
  show "distinct (map id' (links (run h initial (map Create rs))))"
    by (rule run_distinct) (simp add: initial_def)
next
  assume taken: "codeOf (customCode st) rnd \<in> id' ` set (links st)"
  then have f: "find (\<lambda>l. id' l = codeOf (customCode st) rnd) (links st) \<noteq> None"
    by (auto simp: find_None_iff)
  show "fst (createShort h uid rnd now st) = Returned"
    using f unfolding createShort_def Let_def by simp
  show "links (snd (createShort h uid rnd now st)) = links st"
    using f unfolding createShort_def Let_def by simp
  show "err (snd (createShort h uid rnd now st)) \<noteq> []"
    using f unfolding createShort_def Let_def by simp
  show "createShort h uid rnd now st
          = (Returned, st\<lparr>err := ''Short code collision, try another custom code''\<rparr>)"
    if "isValidUrl h (originalUrl' st) \<and> \<not> isNaN (minutesOf (validityMinutes st)) \<and>
        \<not> le0 (minutesOf (validityMinutes st))"
    using f that unfolding createShort_def Let_def by simp
qed

text \<open>
  Three requests on the example host: the code \<open>abc\<close>, the code \<open>abc\<close> again, which is
  refused, and the code \<open>xyz\<close>.
\<close>

theorem codes_stay_unique_witness:
  "map id' (links (run exampleHost initial
     (map Create [exampleRequest ''abc'' 0, exampleRequest ''abc'' 5, exampleRequest ''xyz'' 9])))
     = [''xyz'', ''abc''] \<and>
   distinct (map id' (links (run exampleHost initial
     (map Create [exampleRequest ''abc'' 0, exampleRequest ''abc'' 5, exampleRequest ''xyz'' 9])))) \<and>
   createShort exampleHost ''owner'' ''zzzzzz'' 5
       (fillForm (exampleRequest ''abc'' 5) (initial\<lparr>links := [exampleLink 0 60]\<rparr>))
     = (Returned, (fillForm (exampleRequest ''abc'' 5) (initial\<lparr>links := [exampleLink 0 60]\<rparr>))
                    \<lparr>err := ''Short code collision, try another custom code''\<rparr>)"
proof -
  let ?st = "fillForm (exampleRequest ''abc'' 5) (initial\<lparr>links := [exampleLink 0 60]\<rparr>)"
  have a: "map id' (links (run exampleHost initial
     (map Create [exampleRequest ''abc'' 0, exampleRequest ''abc'' 5, exampleRequest ''xyz'' 9])))
     = [''xyz'', ''abc'']"
    by code_simp
  have b: "codeOf (customCode ?st) ''zzzzzz'' \<in> id' ` set (links ?st)"
    by code_simp
  have c: "isValidUrl exampleHost (originalUrl' ?st) \<and> \<not> isNaN (minutesOf (validityMinutes ?st)) \<and>
           \<not> le0 (minutesOf (validityMinutes ?st))"
    by code_simp
  note th = codes_stay_unique[where h = exampleHost and st = ?st and rnd = "''zzzzzz''"
      and uid = "''owner''" and now = 5
      and rs = "[exampleRequest ''abc'' 0, exampleRequest ''abc'' 5, exampleRequest ''xyz'' 9]"]
  from th a b c show ?thesis by blast
qed

text \<open>
  C5. Invalid input is rejected and nothing is inserted. When the \<open>URL\<close> constructor throws
  on the entered URL, or yields a protocol other than \<open>http:\<close> and \<open>https:\<close>, \<open>createShort\<close>
  only sets the URL error message. When the URL is acceptable and the validity is NaN or
  not positive, it only sets the validity error message. In both cases the links are
  the same. (The empty validity stands for the default of 30 minutes and is accepted.)
\<close>

theorem invalid_input_rejected:
  "(\<not> (\<exists>p. URL h (originalUrl' st) = Some p \<and> (protocol p = ''http:'' \<or> protocol p = ''https:''))
      \<longrightarrow>
      createShort h uid rnd now st = (Returned, st\<lparr>err := ''Enter a valid http(s) URL''\<rparr>) \<and>
      links (snd (createShort h uid rnd now st)) = links st) \<and>
   ((\<exists>p. URL h (originalUrl' st) = Some p \<and> (protocol p = ''http:'' \<or> protocol p = ''https:'')) \<and>
    (validityMinutes st = Picked NaN \<or> validityMinutes st = Picked NegInfinity \<or>
     (\<exists>q. q \<le> 0 \<and> validityMinutes st = Picked (Num q)))
      \<longrightarrow>
      createShort h uid rnd now st
        = (Returned, st\<lparr>err := ''Validity must be a positive number of minutes''\<rparr>) \<and>
      links (snd (createShort h uid rnd now st)) = links st)"
proof (intro conjI impI)
  assume "\<not> (\<exists>p. URL h (originalUrl' st) = Some p \<and>
                (protocol p = ''http:'' \<or> protocol p = ''https:''))"
  then have bad: "\<not> isValidUrl h (originalUrl' st)"
    by (simp only: isValidUrl_iff not_False_eq_True)
  show "createShort h uid rnd now st = (Returned, st\<lparr>err := ''Enter a valid http(s) URL''\<rparr>)"
    using bad unfolding createShort_def Let_def by simp
  then show "links (snd (createShort h uid rnd now st)) = links st"
    by simp
next
  assume hyp: "(\<exists>p. URL h (originalUrl' st) = Some p \<and>
                  (protocol p = ''http:'' \<or> protocol p = ''https:'')) \<and>
    (validityMinutes st = Picked NaN \<or> validityMinutes st = Picked NegInfinity \<or>
     (\<exists>q. q \<le> 0 \<and> validityMinutes st = Picked (Num q)))"
  then have ok: "isValidUrl h (originalUrl' st)"
    by (simp only: isValidUrl_iff)
  from hyp have m: "isNaN (minutesOf (validityMinutes st)) \<or> le0 (minutesOf (validityMinutes st))"
    by auto
  show r: "createShort h uid rnd now st
        = (Returned, st\<lparr>err := ''Validity must be a positive number of minutes''\<rparr>)"
    using ok m unfolding createShort_def Let_def by auto
  show "links (snd (createShort h uid rnd now st)) = links st"
    unfolding r by simp
qed

text \<open>
  The examples of the specification on the example host: the URL \<open>ftp://x.com\<close> for 30
  minutes, and the URL \<open>https://x.com\<close> for 0 minutes, both with no custom code.
\<close>

theorem invalid_input_rejected_witness:
  "createShort exampleHost ''owner'' ''zzzzzz'' 0 (exampleForm ''ftp://x.com'' [] (Picked (Num 30)))
     = (Returned, (exampleForm ''ftp://x.com'' [] (Picked (Num 30)))
                    \<lparr>err := ''Enter a valid http(s) URL''\<rparr>) \<and>
   createShort exampleHost ''owner'' ''zzzzzz'' 0 (exampleForm ''https://x.com'' [] (Picked (Num 0)))
     = (Returned, (exampleForm ''https://x.com'' [] (Picked (Num 0)))
                    \<lparr>err := ''Validity must be a positive number of minutes''\<rparr>)"
proof -
  let ?a = "exampleForm ''ftp://x.com'' [] (Picked (Num 30))"
  let ?b = "exampleForm ''https://x.com'' [] (Picked (Num 0))"
  have a: "\<not> (\<exists>p. URL exampleHost (originalUrl' ?a) = Some p \<and>
                  (protocol p = ''http:'' \<or> protocol p = ''https:''))"
    by (simp add: exampleHost_def exampleURL_def exampleForm_def)
  have b: "\<exists>p. URL exampleHost (originalUrl' ?b) = Some p \<and>
                (protocol p = ''http:'' \<or> protocol p = ''https:'')"
    by (simp add: exampleHost_def exampleURL_def exampleForm_def)
  have c: "\<exists>q::rat. q \<le> 0 \<and> validityMinutes ?b = Picked (Num q)"
    by (simp add: exampleForm_def)
  from invalid_input_rejected[where h = exampleHost and st = ?a and uid = "''owner''"
      and rnd = "''zzzzzz''" and now = 0] a
  have "createShort exampleHost ''owner'' ''zzzzzz'' 0 ?a
          = (Returned, ?a\<lparr>err := ''Enter a valid http(s) URL''\<rparr>)"
    by blast
  moreover
  from invalid_input_rejected[where h = exampleHost and st = ?b and uid = "''owner''"
      and rnd = "''zzzzzz''" and now = 0] b c
  have "createShort exampleHost ''owner'' ''zzzzzz'' 0 ?b
          = (Returned, ?b\<lparr>err := ''Validity must be a positive number of minutes''\<rparr>)"
    by blast
  ultimately show ?thesis by simp
qed

text \<open>
  C6, as the program has it. A custom code is trimmed before use: white space at both
  ends is dropped and nothing else is changed (there is no case folding), so what is used
  neither starts nor ends with white space, and a custom code that neither starts nor
  ends with white space is used as entered. With an acceptable URL and validity, the
  trimmed code, when it is not empty, becomes the code of the new link if no link has it
  yet; if a link has it, \<open>createShort\<close> only sets the collision message, a fixed text that
  does not mention the code. A custom code that trims to the empty string counts as not
  given: the generated code is used in the same way.
\<close>

theorem requested_code_is_trimmed:
  assumes "isValidUrl h (originalUrl' st)"
    and "\<not> isNaN (minutesOf (validityMinutes st))"
    and "\<not> le0 (minutesOf (validityMinutes st))"
  shows "(trim (customCode st) \<noteq> [] \<and> trim (customCode st) \<in> id' ` set (links st) \<longrightarrow>
            createShort h uid rnd now st
              = (Returned, st\<lparr>err := ''Short code collision, try another custom code''\<rparr>)) \<and>
         (trim (customCode st) \<noteq> [] \<and> trim (customCode st) \<notin> id' ` set (links st) \<and>
          addMinutesToIso h now (minutesOf (validityMinutes st)) = Some e \<longrightarrow>
            createShort h uid rnd now st
              = (Returned,
                 st\<lparr>err := [],
                    links := \<lparr>id' = trim (customCode st), originalUrl = originalUrl' st,
                              createdAt = now, expiresAt = e, clicks = [], createdBy = uid\<rparr>
                             # links st,
                    originalUrl' := [], customCode := [], validityMinutes := Picked (Num 30)\<rparr>)) \<and>
         (\<exists>pre post. customCode st = pre @ trim (customCode st) @ post \<and>
            (\<forall>c \<in> set pre. isWhiteSpace c) \<and> (\<forall>c \<in> set post. isWhiteSpace c)) \<and>
         (\<not> isWhiteSpace (hd (customCode st)) \<and> \<not> isWhiteSpace (last (customCode st)) \<longrightarrow>
            trim (customCode st) = customCode st) \<and>
         (trim (customCode st) \<noteq> [] \<longrightarrow>
            \<not> isWhiteSpace (hd (trim (customCode st))) \<and>
            \<not> isWhiteSpace (last (trim (customCode st)))) \<and>
         (trim (customCode st) = [] \<and> rnd \<in> id' ` set (links st) \<longrightarrow>
            createShort h uid rnd now st
              = (Returned, st\<lparr>err := ''Short code collision, try another custom code''\<rparr>)) \<and>
         (trim (customCode st) = [] \<and> rnd \<notin> id' ` set (links st) \<and>
          addMinutesToIso h now (minutesOf (validityMinutes st)) = Some e \<longrightarrow>
            createShort h uid rnd now st
              = (Returned,
                 st\<lparr>err := [],
                    links := \<lparr>id' = rnd, originalUrl = originalUrl' st,
                              createdAt = now, expiresAt = e, clicks = [], createdBy = uid\<rparr>
                             # links st,
                    originalUrl' := [], customCode := [], validityMinutes := Picked (Num 30)\<rparr>))"
proof (intro conjI impI)
  assume a: "trim (customCode st) \<noteq> [] \<and> trim (customCode st) \<in> id' ` set (links st)"
  then have "find (\<lambda>l. id' l = trim (customCode st)) (links st) \<noteq> None"
    by (simp add: find_None_ids)
  then show "createShort h uid rnd now st
               = (Returned, st\<lparr>err := ''Short code collision, try another custom code''\<rparr>)"
    using assms a unfolding createShort_def Let_def by simp
next
  assume a: "trim (customCode st) \<noteq> [] \<and> trim (customCode st) \<notin> id' ` set (links st) \<and>
          addMinutesToIso h now (minutesOf (validityMinutes st)) = Some e"
  then have "find (\<lambda>l. id' l = trim (customCode st)) (links st) = None"
    and "addMinutesToIso h now (minutesOf (validityMinutes st)) = Some e"
    by (simp_all add: find_None_ids)
  then show "createShort h uid rnd now st
      = (Returned,
         st\<lparr>err := [],
            links := \<lparr>id' = trim (customCode st), originalUrl = originalUrl' st,
                      createdAt = now, expiresAt = e, clicks = [], createdBy = uid\<rparr>
                     # links st,
            originalUrl' := [], customCode := [], validityMinutes := Picked (Num 30)\<rparr>)"
    using assms a unfolding createShort_def Let_def by simp
next
  show "\<exists>pre post. customCode st = pre @ trim (customCode st) @ post \<and>
          (\<forall>c \<in> set pre. isWhiteSpace c) \<and> (\<forall>c \<in> set post. isWhiteSpace c)"
    by (rule trim_decomp)
next
  assume w: "\<not> isWhiteSpace (hd (customCode st)) \<and> \<not> isWhiteSpace (last (customCode st))"
  show "trim (customCode st) = customCode st"
  proof (cases "customCode st = []")
    case True
    then show ?thesis by (simp add: trim_def)
  next
    case False
    with w show ?thesis by (simp add: trim_id)
  qed
next
  assume "trim (customCode st) \<noteq> []"
  then show "\<not> isWhiteSpace (hd (trim (customCode st)))"
    and "\<not> isWhiteSpace (last (trim (customCode st)))"
    by (simp_all add: trim_ends)
next
  assume a: "trim (customCode st) = [] \<and> rnd \<in> id' ` set (links st)"
  then have "find (\<lambda>l. id' l = rnd) (links st) \<noteq> None"
    by (simp add: find_None_ids)
  then show "createShort h uid rnd now st
               = (Returned, st\<lparr>err := ''Short code collision, try another custom code''\<rparr>)"
    using assms a unfolding createShort_def Let_def by simp
next
  assume a: "trim (customCode st) = [] \<and> rnd \<notin> id' ` set (links st) \<and>
          addMinutesToIso h now (minutesOf (validityMinutes st)) = Some e"
  then have "find (\<lambda>l. id' l = rnd) (links st) = None"
    and "addMinutesToIso h now (minutesOf (validityMinutes st)) = Some e"
    by (simp_all add: find_None_ids)
  then show "createShort h uid rnd now st
      = (Returned,
         st\<lparr>err := [],
            links := \<lparr>id' = rnd, originalUrl = originalUrl' st,
                      createdAt = now, expiresAt = e, clicks = [], createdBy = uid\<rparr>
                     # links st,
            originalUrl' := [], customCode := [], validityMinutes := Picked (Num 30)\<rparr>)"
    using assms a unfolding createShort_def Let_def by simp
qed

text \<open>
  On the example host: the custom code \<open>abc\<close> with a blank on each side makes the link
  \<open>abc\<close>; entered again over that link, it is refused.
\<close>

theorem requested_code_is_trimmed_witness:
  "createShort exampleHost ''owner'' ''zzzzzz'' 0
       (exampleForm ''https://example.com/x'' '' abc '' (Picked (Num 60)))
     = (Returned, initial\<lparr>links := [exampleLink 0 60]\<rparr>) \<and>
   createShort exampleHost ''owner'' ''zzzzzz'' 5
       (fillForm (exampleRequest '' abc '' 5) (initial\<lparr>links := [exampleLink 0 60]\<rparr>))
     = (Returned, (fillForm (exampleRequest '' abc '' 5) (initial\<lparr>links := [exampleLink 0 60]\<rparr>))
                    \<lparr>err := ''Short code collision, try another custom code''\<rparr>)"
proof -
  let ?a = "exampleForm ''https://example.com/x'' '' abc '' (Picked (Num 60))"
  let ?b = "fillForm (exampleRequest '' abc '' 5) (initial\<lparr>links := [exampleLink 0 60]\<rparr>)"
  have a: "isValidUrl exampleHost (originalUrl' ?a)"
    "\<not> isNaN (minutesOf (validityMinutes ?a))" "\<not> le0 (minutesOf (validityMinutes ?a))"
    by code_simp+
  have a': "trim (customCode ?a) \<noteq> [] \<and> trim (customCode ?a) \<notin> id' ` set (links ?a) \<and>
            addMinutesToIso exampleHost 0 (minutesOf (validityMinutes ?a)) = Some 3600000"
    by code_simp
  have b: "isValidUrl exampleHost (originalUrl' ?b)"
    "\<not> isNaN (minutesOf (validityMinutes ?b))" "\<not> le0 (minutesOf (validityMinutes ?b))"
    by code_simp+
  have b': "trim (customCode ?b) \<noteq> [] \<and> trim (customCode ?b) \<in> id' ` set (links ?b)"
    by code_simp
  from requested_code_is_trimmed[OF a, where uid = "''owner''" and rnd = "''zzzzzz''" and now = 0
      and e = 3600000] a'
  have "createShort exampleHost ''owner'' ''zzzzzz'' 0 ?a
      = (Returned,
         ?a\<lparr>err := [],
            links := \<lparr>id' = trim (customCode ?a), originalUrl = originalUrl' ?a,
                      createdAt = 0, expiresAt = 3600000, clicks = [], createdBy = ''owner''\<rparr>
                     # links ?a,
            originalUrl' := [], customCode := [], validityMinutes := Picked (Num 30)\<rparr>)"
    by blast
  also have "\<dots> = (Returned, initial\<lparr>links := [exampleLink 0 60]\<rparr>)"
    by code_simp
  finally have one: "createShort exampleHost ''owner'' ''zzzzzz'' 0 ?a
      = (Returned, initial\<lparr>links := [exampleLink 0 60]\<rparr>)" .
  from requested_code_is_trimmed[OF b, where uid = "''owner''" and rnd = "''zzzzzz''" and now = 5] b'
  have "createShort exampleHost ''owner'' ''zzzzzz'' 5 ?b
      = (Returned, ?b\<lparr>err := ''Short code collision, try another custom code''\<rparr>)"
    by blast
  with one show ?thesis by simp
qed

text \<open>
  The claim as stated, with the requested code used exactly as given and named by the
  collision error, fails on the custom code \<open>abc\<close> with a blank on each side: the link gets
  the code \<open>abc\<close>, and the collision message of a second attempt holds neither form of the
  code.
\<close>

theorem requested_code_verbatim_counterexample:
  "map id' (links (snd (createShort exampleHost ''owner'' ''zzzzzz'' 0
       (exampleForm ''https://example.com/x'' '' abc '' (Picked (Num 60))))))
     = [''abc''] \<and>
   ''abc'' \<noteq> '' abc '' \<and>
   err (snd (createShort exampleHost ''owner'' ''zzzzzz'' 5
       (fillForm (exampleRequest '' abc '' 5) (initial\<lparr>links := [exampleLink 0 60]\<rparr>))))
     = ''Short code collision, try another custom code''"
  by code_simp

text \<open>
  C7, as the program has it. \<open>removeLink\<close> has no error result: it filters the links and
  changes nothing else, so no error message is set. Afterwards no link has the code and
  every link with another code is still there. Where each code occurs once and the code
  is present, exactly the one link that has it is removed and the others keep their
  order. Where the code is absent, the state is what it was: the deletion succeeds
  silently.
\<close>

theorem removeLink_never_fails:
  "err (removeLink i st) = err st \<and>
   i \<notin> id' ` set (links (removeLink i st)) \<and>
   (\<forall>x \<in> set (links st). id' x \<noteq> i \<longrightarrow> x \<in> set (links (removeLink i st))) \<and>
   (distinct (map id' (links st)) \<and> l \<in> set (links st) \<and> id' l = i \<longrightarrow>
      links (removeLink i st) = remove1 l (links st) \<and>
      length (links (removeLink i st)) + 1 = length (links st)) \<and>
   (i \<notin> id' ` set (links st) \<longrightarrow> removeLink i st = st)"
proof (intro conjI impI)
  show "err (removeLink i st) = err st"
    by (simp add: removeLink_def)
  show "i \<notin> id' ` set (links (removeLink i st))"
    by (auto simp: removeLink_def)
  show "\<forall>x \<in> set (links st). id' x \<noteq> i \<longrightarrow> x \<in> set (links (removeLink i st))"
    by (simp add: removeLink_def)
next
  assume h: "distinct (map id' (links st)) \<and> l \<in> set (links st) \<and> id' l = i"
  then have "filter (\<lambda>x. id' x \<noteq> i) (links st) = remove1 l (links st)"
    using filter_id_remove1[of "links st" l] by auto
  then show r: "links (removeLink i st) = remove1 l (links st)"
    by (simp add: removeLink_def)
  from h have "l \<in> set (links st)" by simp
  moreover from this have "0 < length (links st)" by (rule length_pos_if_in_set)
  ultimately have "length (remove1 l (links st)) + 1 = length (links st)"
    by (simp add: length_remove1)
  then show "length (links (removeLink i st)) + 1 = length (links st)"
    unfolding r .
next
  assume "i \<notin> id' ` set (links st)"
  then show "removeLink i st = st"
    by (simp add: removeLink_def filter_other_ids)
qed

text \<open>Deleting the link \<open>abc\<close> from the dashboard that holds this link and one more.\<close>

theorem removeLink_never_fails_witness:
  "removeLink ''abc'' (initial\<lparr>links := [(exampleLink 5 30)\<lparr>id' := ''xyz''\<rparr>, exampleLink 0 60]\<rparr>)
     = initial\<lparr>links := [(exampleLink 5 30)\<lparr>id' := ''xyz''\<rparr>]\<rparr> \<and>
   removeLink ''nope'' (initial\<lparr>links := [exampleLink 0 60]\<rparr>)
     = initial\<lparr>links := [exampleLink 0 60]\<rparr>"
proof -
  let ?st = "initial\<lparr>links := [(exampleLink 5 30)\<lparr>id' := ''xyz''\<rparr>, exampleLink 0 60]\<rparr>"
  let ?s1 = "initial\<lparr>links := [exampleLink 0 60]\<rparr>"
  have a: "distinct (map id' (links ?st)) \<and> exampleLink 0 60 \<in> set (links ?st) \<and>
           id' (exampleLink 0 60) = ''abc''"
    by (simp add: initial_def exampleLink_def)
  have b: "''nope'' \<notin> id' ` set (links ?s1)"
    by (simp add: initial_def exampleLink_def)
  from removeLink_never_fails[where i = "''abc''" and st = ?st and l = "exampleLink 0 60"] a
  have "links (removeLink ''abc'' ?st) = remove1 (exampleLink 0 60) (links ?st)"
    by blast
  then have "removeLink ''abc'' ?st = initial\<lparr>links := [(exampleLink 5 30)\<lparr>id' := ''xyz''\<rparr>]\<rparr>"
    by (simp add: removeLink_def initial_def exampleLink_def)
  moreover
  from removeLink_never_fails[where i = "''nope''" and st = ?s1] b
  have "removeLink ''nope'' ?s1 = ?s1"
    by blast
  ultimately show ?thesis by simp
qed

text \<open>
  The claim as stated, with an error for a code that is not present, fails on the code
  \<open>nope\<close> over a dashboard that holds only the link \<open>abc\<close>: the deletion returns the same
  state, with no error message set.
\<close>

theorem delete_missing_counterexample:
  "''nope'' \<notin> id' ` set (links (initial\<lparr>links := [exampleLink 0 60]\<rparr>)) \<and>
   removeLink ''nope'' (initial\<lparr>links := [exampleLink 0 60]\<rparr>)
     = initial\<lparr>links := [exampleLink 0 60]\<rparr> \<and>
   err (removeLink ''nope'' (initial\<lparr>links := [exampleLink 0 60]\<rparr>)) = []"
  by (simp add: removeLink_def initial_def exampleLink_def)

text \<open>
  C8. Deleting a link frees its code. After any actions (a creation with the custom code
  and clicks on the link among them), deleting the code and then submitting a request
  with the same custom code, an acceptable URL and validity and an expiry within the
  range of a Date, makes a fresh link: it is put in front of the links that were left,
  none of which has the code, it has the entered URL, and it has no clicks.
\<close>

theorem delete_frees_code:
  assumes "trim (reqCode r) \<noteq> []"
    and "isValidUrl h (reqUrl r)"
    and "\<not> isNaN (minutesOf (reqValidity r))"
    and "\<not> le0 (minutesOf (reqValidity r))"
    and "addMinutesToIso h (reqNow r) (minutesOf (reqValidity r)) = Some e"
  shows "let before = run h st (acts @ [Remove (trim (reqCode r))]);
             after = run h st (acts @ [Remove (trim (reqCode r)), Create r])
         in trim (reqCode r) \<notin> id' ` set (links before) \<and>
            err after = [] \<and>
            links after = \<lparr>id' = trim (reqCode r), originalUrl = reqUrl r, createdAt = reqNow r,
                            expiresAt = e, clicks = [], createdBy = reqOwner r\<rparr> # links before"
proof -
  let ?st1 = "run h st acts"
  let ?st2 = "removeLink (trim (reqCode r)) ?st1"
  let ?f = "fillForm r ?st2"
  have b: "run h st (acts @ [Remove (trim (reqCode r))]) = ?st2"
    by (simp add: run_def)
  have a: "run h st (acts @ [Remove (trim (reqCode r)), Create r]) = submit h r ?st2"
    by (simp add: run_def)
  have free: "trim (reqCode r) \<notin> id' ` set (links ?st2)"
    by (auto simp: removeLink_def)
  have "createShort h (reqOwner r) (reqRnd r) (reqNow r) ?f
      = (Returned,
         ?f\<lparr>err := [],
            links := \<lparr>id' = codeOf (customCode ?f) (reqRnd r), originalUrl = originalUrl' ?f,
                      createdAt = reqNow r, expiresAt = e, clicks = [],
                      createdBy = reqOwner r\<rparr> # links ?f,
            originalUrl' := [], customCode := [], validityMinutes := Picked (Num 30)\<rparr>)"
    using assms free by (intro createShort_fresh) (simp_all add: fillForm_def)
  then have "err (submit h r ?st2) = [] \<and>
     links (submit h r ?st2)
       = \<lparr>id' = trim (reqCode r), originalUrl = reqUrl r, createdAt = reqNow r,
          expiresAt = e, clicks = [], createdBy = reqOwner r\<rparr> # links ?st2"
    using assms(1) by (simp add: submit_def fillForm_def)
  with free show ?thesis
    unfolding Let_def a b by simp
qed

text \<open>
  On the example host: the link \<open>abc\<close> is made, clicked and deleted, and the code \<open>abc\<close> is
  requested again at time 9.
\<close>

theorem delete_frees_code_witness:
  "links (run exampleHost initial
     ([Create (exampleRequest ''abc'' 0), SimClick (exampleLink 0 60) None 3]
        @ [Remove (trim (reqCode (exampleRequest ''abc'' 9))), Create (exampleRequest ''abc'' 9)]))
   = [exampleLink 9 60] \<and>
   clicks (exampleLink 9 60) = []"
proof -
  let ?r = "exampleRequest ''abc'' 9"
  let ?acts = "[Create (exampleRequest ''abc'' 0), SimClick (exampleLink 0 60) None 3]"
  have a: "trim (reqCode ?r) \<noteq> []" "isValidUrl exampleHost (reqUrl ?r)"
    "\<not> isNaN (minutesOf (reqValidity ?r))" "\<not> le0 (minutesOf (reqValidity ?r))"
    "addMinutesToIso exampleHost (reqNow ?r) (minutesOf (reqValidity ?r)) = Some 3600009"
    by code_simp+
  have b: "links (run exampleHost initial (?acts @ [Remove (trim (reqCode ?r))])) = []"
    by code_simp
  from delete_frees_code[OF a, where st = initial and acts = ?acts]
  have "links (run exampleHost initial (?acts @ [Remove (trim (reqCode ?r)), Create ?r]))
          = \<lparr>id' = trim (reqCode ?r), originalUrl = reqUrl ?r, createdAt = reqNow ?r,
             expiresAt = 3600009, clicks = [], createdBy = reqOwner ?r\<rparr>
            # links (run exampleHost initial (?acts @ [Remove (trim (reqCode ?r))]))"
    unfolding Let_def by blast
  also have "\<dots> = [exampleLink 9 60]"
    unfolding b by code_simp
  finally show ?thesis
    by (simp add: exampleLink_def)
qed

text \<open>
  C9. The dashboard lists the newest link first. The list is never sorted: a creation
  puts the new link in front, and deleting, clicking and visiting keep the order of the
  links that stay. So after every sequence of actions on a dashboard that started empty,
  in which no creation reads an earlier clock value than a creation before it, each
  link of the list was created at or after the time of the link that follows it.
\<close>

theorem listing_newest_first:
  assumes "sorted (createTimes acts)"
  shows "sorted_wrt (\<lambda>a b. createdAt b \<le> createdAt a) (links (run h initial acts))"
proof -
  have "sorted_wrt (\<ge>) (map createdAt (links (run h initial acts)))"
    using assms by (intro run_sorted) (simp_all add: initial_def)
  then show ?thesis
    by (simp add: sorted_wrt_map)
qed

text \<open>The example session ends with the links made at times 9 and 0, in this order.\<close>

theorem listing_newest_first_witness:
  "createTimes exampleActions = [0, 9, 9] \<and>
   map id' (links (run exampleHost initial exampleActions)) = [''def'', ''abc''] \<and>
   map createdAt (links (run exampleHost initial exampleActions)) = [9, 0] \<and>
   sorted_wrt (\<lambda>a b. createdAt b \<le> createdAt a) (links (run exampleHost initial exampleActions))"
proof -
  have a: "createTimes exampleActions = [0, 9, 9]"
    by code_simp
  then have "sorted (createTimes exampleActions)"
    by simp
  then have "sorted_wrt (\<lambda>a b. createdAt b \<le> createdAt a)
               (links (run exampleHost initial exampleActions))"
    by (rule listing_newest_first)
  moreover have "map id' (links (run exampleHost initial exampleActions)) = [''def'', ''abc'']"
    by code_simp
  moreover have "map createdAt (links (run exampleHost initial exampleActions)) = [9, 0]"
    by code_simp
  ultimately show ?thesis
    using a by simp
qed

section \<open>What a visit writes\<close>

text \<open>
  C10. A visit that ends on the not-found page or on the expired page leaves the stored
  links exactly as they were, whatever the path: \<open>saveLinks\<close> is only reached on the way to
  the original URL.
\<close>

theorem no_write_unless_redirect:
  "fst (RedirectHandler stored pathname referrer now t) = NotFound \<or>
   fst (RedirectHandler stored pathname referrer now t) = Expired \<longrightarrow>
   snd (RedirectHandler stored pathname referrer now t) = stored"
  by (simp add: RedirectHandler_def Let_def split: option.splits)

text \<open>A path with no code at all, on a store of two links.\<close>

theorem no_write_unless_redirect_witness:
  "fst (RedirectHandler [exampleLink 0 60, exampleLink 5 30] ''/r'' ''ref'' 7 7) = NotFound \<and>
   snd (RedirectHandler [exampleLink 0 60, exampleLink 5 30] ''/r'' ''ref'' 7 7)
     = [exampleLink 0 60, exampleLink 5 30]"
proof -
  have a: "fst (RedirectHandler [exampleLink 0 60, exampleLink 5 30] ''/r'' ''ref'' 7 7) = NotFound"
    by (simp add: RedirectHandler_def numeral_2_eq_2)
  with no_write_unless_redirect[of "[exampleLink 0 60, exampleLink 5 30]" "''/r''" "''ref''" 7 7]
  show ?thesis by blast
qed

end
